theory Spec2Isabelle
  imports Complex_Main "HOL-Library.Sublist"
begin

text \<open>
  A model of \<open>3rd-party-impact.js\<close>: the classifier \<open>mapTagNameToType\<close>, the conversion
  of the audit's numbers by \<open>parseInt\<close>, the loop that assembles the rows, and the chain
  of callbacks from the command line to the spreadsheet, as a function from the answers of
  the outside world (the browser, the audit engine, the file system, the operator, the
  OAuth, Drive and Sheets services) to the sequence of actions the program performs.
\<close>

section \<open>Strings of the program\<close>

text \<open>
  Names and URLs are modelled as \<^typ>\<open>string\<close>: a list of characters with codes 0 to 255,
  the Latin-1 part of the code units of a JavaScript string.
\<close>

definition toLowerChar :: "char \<Rightarrow> char" where
  \<comment> \<open>\<open>String.prototype.toLowerCase\<close> on one character of this range: A to Z, and the
      accented capitals U+00C0 to U+00DE apart from the multiplication sign U+00D7, move
      up by 32; every other character is kept.\<close>
  "toLowerChar c =
     (let n = (of_char c :: nat)
      in if (65 \<le> n \<and> n \<le> 90) \<or> (192 \<le> n \<and> n \<le> 222 \<and> n \<noteq> 215)
         then char_of (n + 32) else c)"

definition toLowerCase :: "string \<Rightarrow> string" where
  "toLowerCase s = map toLowerChar s"

fun indexOfFrom :: "string \<Rightarrow> string \<Rightarrow> nat \<Rightarrow> int" where
  \<comment> \<open>the search loop of \<open>String.prototype.indexOf\<close>: \<open>k\<close> is the position of the
      first character of the text still to be searched\<close>
  "indexOfFrom [] pat k = (if pat = [] then int k else - 1)"
| "indexOfFrom (c # cs) pat k =
     (if prefix pat (c # cs) then int k else indexOfFrom cs pat (Suc k))"

definition indexOf :: "string \<Rightarrow> string \<Rightarrow> int" where
  \<comment> \<open>\<open>s.indexOf(pat)\<close>: the position of the first occurrence of \<open>pat\<close> in \<open>s\<close>, or -1\<close>
  "indexOf s pat = indexOfFrom s pat 0"

section \<open>The classifier\<close>

definition mapTagNameToType :: "string \<Rightarrow> string" where
  "mapTagNameToType tagName =
     (if indexOf (toLowerCase tagName) '' ads'' > 0 then ''Ads''
      else if indexOf (toLowerCase tagName) ''analytics'' > 0 then ''Analytics''
      else ''other'')"

section \<open>Numbers of the audit and \<open>parseInt\<close>\<close>

text \<open>
  \<open>parseInt\<close> takes a string: applied to a Number it first converts it with
  \<open>Number::toString\<close>, which is defined on the decimal digits of the Number. A Number
  of the audit is therefore given by these digits: \<open>Finite neg ds n\<close> is the finite
  nonzero Number that \<open>Number::toString\<close> writes with the digits \<open>ds\<close> (most
  significant first, \<open>k = length ds\<close> of them) and the decimal point after the
  \<open>n\<close>-th digit, so that the decimal it stands for is \<open>ds\<close> read as an integer, times
  \<open>10 ^ (n - k)\<close>, negated when \<open>neg\<close>. For instance 1234.9 is
  \<open>Finite False [1,2,3,4,9] 4\<close> and 1e-7 is \<open>Finite False [1] (-6)\<close>.

  \<open>Number::toString\<close> writes the shortest digits that read back as the same Number, so
  \<open>numberValue\<close> below, the value of that decimal, is the Number up to this rounding of
  its last digit; an integer below \<open>2 ^ 53\<close> is written exactly, and the decimal of a
  Number that is not an integer has the same integer part as the Number. Binary
  floating-point arithmetic itself is not modelled: a computed Number is given by its
  value, a rational.
\<close>

datatype number = NotANumber | Infinite bool | Zero | Finite bool "nat list" int

text \<open>A Number computed by the program: its value, or NaN.\<close>

datatype computed = NaN | Num rat

definition digitsValue :: "nat list \<Rightarrow> nat" where
  "digitsValue ds = foldl (\<lambda>a d. 10 * a + d) 0 ds"

definition numberValue :: "number \<Rightarrow> rat option" where
  "numberValue x =
     (case x of
        NotANumber \<Rightarrow> None
      | Infinite neg \<Rightarrow> None
      | Zero \<Rightarrow> Some 0
      | Finite neg ds n \<Rightarrow>
          (let k = int (length ds);
               v = (if k \<le> n then of_nat (digitsValue ds) * 10 ^ nat (n - k)
                    else of_nat (digitsValue ds) / 10 ^ nat (k - n))
           in Some (if neg then - v else v)))"

definition digitChar :: "nat \<Rightarrow> char" where
  "digitChar d = char_of (48 + d)"

definition isDigit :: "char \<Rightarrow> bool" where
  "isDigit c = (48 \<le> (of_char c :: nat) \<and> (of_char c :: nat) \<le> 57)"

function showNat :: "nat \<Rightarrow> string" where
  "showNat m = (if m < 10 then [digitChar m] else showNat (m div 10) @ [digitChar (m mod 10)])"
  by pat_completeness auto
termination
  by (relation "measure id") auto

definition unsignedToString :: "nat list \<Rightarrow> int \<Rightarrow> string" where
  \<comment> \<open>\<open>Number::toString\<close> for a positive finite Number, radix 10: plain notation
      when \<open>-5 \<le> n \<le> 21\<close>, exponent notation otherwise\<close>
  "unsignedToString ds n =
     (let k = int (length ds)
      in if - 5 \<le> n \<and> n \<le> 21 then
           (if k \<le> n then map digitChar ds @ replicate (nat (n - k)) (CHR ''0'')
            else if 0 < n then
              map digitChar (take (nat n) ds) @ ''.'' @ map digitChar (drop (nat n) ds)
            else ''0.'' @ replicate (nat (- n)) (CHR ''0'') @ map digitChar ds)
         else
           (let e = n - 1;
                es = (if e < 0 then ''-'' else ''+'') @ showNat (nat \<bar>e\<bar>)
            in if k = 1 then map digitChar ds @ ''e'' @ es
               else map digitChar (take 1 ds) @ ''.'' @ map digitChar (drop 1 ds) @ ''e'' @ es))"

definition toString :: "number \<Rightarrow> string" where
  "toString x =
     (case x of
        NotANumber \<Rightarrow> ''NaN''
      | Infinite neg \<Rightarrow> (if neg then ''-Infinity'' else ''Infinity'')
      | Zero \<Rightarrow> ''0''
      | Finite neg ds n \<Rightarrow> (if neg then ''-'' else []) @ unsignedToString ds n)"

definition digitsOf :: "string \<Rightarrow> nat" where
  "digitsOf z = foldl (\<lambda>a c. 10 * a + ((of_char c :: nat) - 48)) 0 z"

definition parseDecimal :: "string \<Rightarrow> computed" where
  \<comment> \<open>\<open>parseInt\<close> without a radix, on a string that \<open>Number::toString\<close> wrote: an
      optional sign, then the longest run of decimal digits; NaN when there is none.
      (Leading white space and a prefix 0x, which \<open>Number::toString\<close> never writes,
      are the two steps of \<open>parseInt\<close> not modelled.)\<close>
  "parseDecimal s =
     (let neg = (case s of c # r \<Rightarrow> c = CHR ''-'' | [] \<Rightarrow> False);
          r = (case s of c # r \<Rightarrow> (if c = CHR ''-'' \<or> c = CHR ''+'' then r else s) | [] \<Rightarrow> s);
          z = takeWhile isDigit r
      in if z = [] then NaN
         else Num (of_int ((if neg then - 1 else 1) * int (digitsOf z))))"

definition parseInt :: "number \<Rightarrow> computed" where
  "parseInt x = parseDecimal (toString x)"

definition divide_num :: "computed \<Rightarrow> rat \<Rightarrow> computed" where
  \<comment> \<open>the operator \<open>/\<close> with a nonzero constant on the right\<close>
  "divide_num a b = (case a of NaN \<Rightarrow> NaN | Num v \<Rightarrow> Num (v / b))"

section \<open>Row assembly\<close>

record item =
  entity_text :: string
  blockingTime :: number
  mainThreadTime :: number
  transferSize :: number

datatype cell = Text string | Numeric computed

type_synonym row = "cell list"

definition rowOf :: "string \<Rightarrow> item \<Rightarrow> row" where
  \<comment> \<open>the body of the loop over the items\<close>
  "rowOf url it =
     (let tagName = entity_text it;
          type = mapTagNameToType tagName;
          blockingTime' = parseInt (blockingTime it);
          mainThreadTime' = parseInt (mainThreadTime it);
          transferSize' = divide_num (parseInt (transferSize it)) 1024
      in [Text url, Text tagName, Text type, Numeric blockingTime', Numeric mainThreadTime',
          Numeric transferSize'])"

fun assembleRows :: "string \<Rightarrow> item list \<Rightarrow> row list \<Rightarrow> row list" where
  \<comment> \<open>\<open>for (item in items) { ... result.push([...]) }\<close>, with \<open>result\<close> the rows so far\<close>
  "assembleRows url [] result = result"
| "assembleRows url (it # items) result = assembleRows url items (result @ [rowOf url it])"

section \<open>The outside world and the actions of the program\<close>

definition SCOPES :: "string list" where
  "SCOPES = [''https://www.googleapis.com/auth/spreadsheets'',
             ''https://www.googleapis.com/auth/drive'']"

definition TOKEN_PATH :: string where
  "TOKEN_PATH = ''token.json''"

definition TEMPLATE_ID :: string where
  "TEMPLATE_ID = ''1fntMyGqNo6Ti-Jj6DPKcyAUcA2U4jSS6g_4DjH_Ozkw''"

text \<open>What \<open>JSON.parse\<close> makes of the content of a file: it throws, or returns a value.\<close>

datatype 'a content = NotJSON | JSON 'a

text \<open>
  The value of \<open>credentials.json\<close>: its property \<open>installed\<close>, when it has one, with the
  property \<open>redirect_uris\<close>, when it has one. A token is opaque.
\<close>

record installed =
  client_id :: string
  client_secret :: string
  redirect_uris :: "string list option"

type_synonym token = string

record OAuth2Client =
  clientId :: string
  clientSecret :: string
  redirectUri :: "string option"
  credentials :: "token option"

text \<open>
  The report of the audit engine, as far as the program reads it:
  \<open>lhr.audits["third-party-summary"].details\<close> may be missing, and so may its
  \<open>items\<close>.
\<close>

datatype report = NoDetails | Details "item list option"

datatype error = TypeError | SyntaxError | Rejected string

datatype arg = Str string | ErrorArg string | ItemsArg "item list option" | NumberArg nat

datatype event =
    ConsoleLog "arg list"
  | ConsoleError "arg list"
  | ChromeLaunch "string list"
  | Lighthouse string nat "string list"
  | ChromeKill
  | ReadFile string
  | Question string
  | GetToken OAuth2Client string
  | WriteFile string token
  | DriveFilesCopy OAuth2Client string
  | SheetsValuesUpdate OAuth2Client string string string "row list option"
  | Uncaught error

text \<open>
  The answers of the outside world. An error is the text it prints as; in a sum, \<open>Inl\<close>
  is the error. \<open>entered_code\<close> is the line the operator types at the prompt, if any.
\<close>

record world =
  argv2 :: "string option"
  chrome_launch :: "string + nat"
  lighthouse_run :: "string \<Rightarrow> string + report"
  chrome_kill :: "string option"
  credentials_file :: "string + installed option content"
  token_file :: "string + token content"
  generateAuthUrl :: "string list \<Rightarrow> string"
  entered_code :: "string option"
  getToken :: "string \<Rightarrow> string + token"
  token_write :: "string option"
  files_copy :: "OAuth2Client \<Rightarrow> string \<Rightarrow> string + string"
  values_update ::
    "OAuth2Client \<Rightarrow> string \<Rightarrow> string \<Rightarrow> string \<Rightarrow> row list option \<Rightarrow> string + nat"

text \<open>
  A run is the sequence of its actions, \<open>trace\<close>. The callback of \<open>fs.writeFile\<close> in
  \<open>getNewToken\<close> runs when the write has completed, while the program has already gone on
  to the delivery: its actions are kept apart, in \<open>detached\<close>, since the source does not
  fix their place among the later actions of \<open>trace\<close>.
\<close>

record outcome =
  trace :: "event list"
  detached :: "event list"

definition ended :: "event list \<Rightarrow> outcome" where
  "ended es = \<lparr>trace = es, detached = []\<rparr>"

definition after :: "event list \<Rightarrow> outcome \<Rightarrow> outcome" where
  "after es out = out\<lparr>trace := es @ trace out\<rparr>"

section \<open>The functions of the program\<close>

definition launchChromeAndRunLighthouse ::
    "world \<Rightarrow> string \<Rightarrow> string list \<Rightarrow> string list \<Rightarrow> event list \<times> (error + report)" where
  \<comment> \<open>\<open>flags\<close> is \<open>opts.chromeFlags\<close>, \<open>audits\<close> is \<open>config.settings.onlyAudits\<close>; no
      promise of the chain has a rejection handler\<close>
  "launchChromeAndRunLighthouse w url flags audits =
     (let es = [ConsoleLog [Str ''Opening Chrome to make Lighthouse run...''], ChromeLaunch flags]
      in case chrome_launch w of
           Inl e \<Rightarrow> (es, Inl (Rejected e))
         | Inr port \<Rightarrow>
             (case lighthouse_run w url of
                Inl e \<Rightarrow> (es @ [Lighthouse url port audits], Inl (Rejected e))
              | Inr lhr \<Rightarrow>
                  (case chrome_kill w of
                     Some e \<Rightarrow> (es @ [Lighthouse url port audits, ChromeKill], Inl (Rejected e))
                   | None \<Rightarrow> (es @ [Lighthouse url port audits, ChromeKill], Inr lhr))))"

definition writeSheet ::
    "world \<Rightarrow> OAuth2Client \<Rightarrow> string \<Rightarrow> string \<Rightarrow> string \<Rightarrow> row list option
      \<Rightarrow> event list \<times> (string + nat)" where
  "writeSheet w sheets spreadsheetId range' valueInputOption values =
     ([SheetsValuesUpdate sheets spreadsheetId range' valueInputOption values],
      values_update w sheets spreadsheetId range' valueInputOption values)"

definition addResultsToSpeadsheet :: "world \<Rightarrow> OAuth2Client \<Rightarrow> row list option \<Rightarrow> event list" where
  \<comment> \<open>\<open>items\<close> is \<open>None\<close> when the caller passes no second argument\<close>
  "addResultsToSpeadsheet w auth items =
     [ConsoleLog [Str ''Making a copy of the report TEMPLATE file....''],
      DriveFilesCopy auth TEMPLATE_ID] @
     (case files_copy w auth TEMPLATE_ID of
        Inl err \<Rightarrow> [ConsoleLog [Str (''The API returned an error: '' @ err)]]
      | Inr spreadsheetID \<Rightarrow>
          (let range' = ''Actions!A2:F'';
               valueInputOption = ''RAW'';
               (es, result) = writeSheet w auth spreadsheetID range' valueInputOption items
           in [ConsoleLog [Str (''Now writing results into new spreadsheet: '' @
                                ''https://docs.google.com/spreadsheets/d/'' @ spreadsheetID)]] @
              es @
              (case result of
                 Inl e \<Rightarrow> [Uncaught (Rejected e)]
               | Inr updatedCells \<Rightarrow>
                   [ConsoleLog [Str ''%d cells updated.'', NumberArg updatedCells]])))"

definition getNewToken :: "world \<Rightarrow> OAuth2Client \<Rightarrow> outcome" where
  \<comment> \<open>the callback is always \<open>addResultsToSpeadsheet\<close>; it is called with the client
      alone. \<open>fs.writeFile\<close> is started before the callback is called, and its own callback
      runs later. Opening and closing the readline interface are not recorded.\<close>
  "getNewToken w oAuth2Client =
     (let authUrl = generateAuthUrl w SCOPES;
          es = [ConsoleLog [Str ''Authorize this app by visiting this url:'', Str authUrl],
                Question ''Enter the code from that page here: '']
      in case entered_code w of
           None \<Rightarrow> ended es
         | Some code \<Rightarrow>
             (case getToken w code of
                Inl err \<Rightarrow>
                  ended (es @ [GetToken oAuth2Client code,
                    ConsoleError [Str ''Error while trying to retrieve access token'', ErrorArg err]])
              | Inr tok \<Rightarrow>
                  (let client = oAuth2Client\<lparr>credentials := Some tok\<rparr>
                   in \<lparr>trace = es @ [GetToken oAuth2Client code, WriteFile TOKEN_PATH tok] @
                               addResultsToSpeadsheet w client None,
                       detached =
                         (case token_write w of
                            Some err \<Rightarrow> [ConsoleError [ErrorArg err]]
                          | None \<Rightarrow> [ConsoleLog [Str ''Token stored to'', Str TOKEN_PATH]])\<rparr>)))"

definition authorize :: "world \<Rightarrow> installed option \<Rightarrow> row list \<Rightarrow> outcome" where
  \<comment> \<open>the callback is always \<open>addResultsToSpeadsheet\<close>\<close>
  "authorize w creds items =
     (case creds of
        None \<Rightarrow> ended [Uncaught TypeError]
      | Some inst \<Rightarrow>
          (case redirect_uris inst of
             None \<Rightarrow> ended [Uncaught TypeError]
           | Some uris \<Rightarrow>
               (let oAuth2Client =
                      \<lparr>clientId = client_id inst, clientSecret = client_secret inst,
                       redirectUri = (case uris of [] \<Rightarrow> None | u # _ \<Rightarrow> Some u),
                       credentials = None\<rparr>
                in after [ReadFile TOKEN_PATH]
                     (case token_file w of
                        Inl err \<Rightarrow> getNewToken w oAuth2Client
                      | Inr NotJSON \<Rightarrow> ended [Uncaught SyntaxError]
                      | Inr (JSON tok) \<Rightarrow>
                          ended (addResultsToSpeadsheet w
                                   (oAuth2Client\<lparr>credentials := Some tok\<rparr>) (Some items))))))"

definition main :: "world \<Rightarrow> outcome" where
  "main w =
     (case argv2 w of
        None \<Rightarrow> ended [Uncaught TypeError]
      | Some url \<Rightarrow>
          if indexOf url ''http'' \<noteq> 0 then
            ended [ConsoleLog [Str ''Usage: node 3rd-party-impact.js <url>'']]
          else
            (let (es, r) = launchChromeAndRunLighthouse w url [''--headless'']
                             [''third-party-summary'']
             in after ([ConsoleLog [Str ''''],
                        ConsoleLog [Str (''Program has started. Analysing 3rd party script on: ''
                                         @ url)]] @ es)
                  (case r of
                     Inl e \<Rightarrow> ended [Uncaught e]
                   | Inr NoDetails \<Rightarrow> ended [Uncaught TypeError]
                   | Inr (Details items) \<Rightarrow>
                       (let result = assembleRows url (case items of None \<Rightarrow> [] | Some its \<Rightarrow> its) []
                        in after [ConsoleLog [ItemsArg items], ReadFile ''credentials.json'']
                             (case credentials_file w of
                                Inl err \<Rightarrow>
                                  ended [ConsoleLog [Str ''Error loading client secret file:'',
                                                     ErrorArg err]]
                              | Inr NotJSON \<Rightarrow> ended [Uncaught SyntaxError]
                              | Inr (JSON creds) \<Rightarrow> authorize w creds result)))))"

section \<open>Notions used to state the properties\<close>

subsection \<open>Occurrences of a substring\<close>

definition firstOccurrence :: "string \<Rightarrow> string \<Rightarrow> nat \<Rightarrow> bool" where
  \<comment> \<open>\<open>pat\<close> occurs in \<open>s\<close> at position \<open>i\<close> and at no earlier position\<close>
  "firstOccurrence s pat i =
     (i \<le> length s \<and> prefix pat (drop i s)
      \<and> list_all (\<lambda>j. \<not> prefix pat (drop j s)) [0..<i])"

definition occursAfterStart :: "string \<Rightarrow> string \<Rightarrow> bool" where
  \<comment> \<open>the specification's words: \<open>s\<close> contains \<open>pat\<close> at a position greater than 0\<close>
  "occursAfterStart s pat = list_ex (\<lambda>i. prefix pat (drop i s)) [1..<Suc (length s)]"

definition classify_spec :: "string \<Rightarrow> string" where
  \<comment> \<open>the classification function as the specification words it\<close>
  "classify_spec name =
     (if occursAfterStart (toLowerCase name) '' ads'' then ''Ads''
      else if occursAfterStart (toLowerCase name) ''analytics'' then ''Analytics''
      else ''other'')"

subsection \<open>Truncation and plain notation\<close>

definition truncateRat :: "rat \<Rightarrow> int" where
  \<comment> \<open>the integer part, towards zero\<close>
  "truncateRat v = (if v < 0 then \<lceil>v\<rceil> else \<lfloor>v\<rfloor>)"

definition plainNotation :: "number \<Rightarrow> bool" where
  \<comment> \<open>the Numbers that \<open>Number::toString\<close> writes without an exponent: zero, and the finite
      ones with \<open>-5 \<le> n \<le> 21\<close>, that is of magnitude from 1e-6 up to, and excluding, 1e21\<close>
  "plainNotation x =
     (case x of
        NotANumber \<Rightarrow> False
      | Infinite neg \<Rightarrow> False
      | Zero \<Rightarrow> True
      | Finite neg ds n \<Rightarrow> ds \<noteq> [] \<and> list_all (\<lambda>d. d < 10) ds \<and> - 5 \<le> n \<and> n \<le> 21)"

definition truncatedMs_spec :: "number \<Rightarrow> computed option" where
  \<comment> \<open>the specification's words: a time is truncated to integer milliseconds\<close>
  "truncatedMs_spec x = map_option (\<lambda>v. Num (of_int (truncateRat v))) (numberValue x)"

definition kilobytes_spec :: "number \<Rightarrow> computed option" where
  \<comment> \<open>the specification's words: the byte value divided by 1024, nothing rounded or
      truncated\<close>
  "kilobytes_spec x = map_option (\<lambda>v. Num (v / 1024)) (numberValue x)"

subsection \<open>Kinds of actions\<close>

fun browserAction :: "event \<Rightarrow> bool" where
  \<comment> \<open>the browser launch, the audit (which loads the page over the network), the kill\<close>
  "browserAction (ChromeLaunch flags) = True"
| "browserAction (Lighthouse url port audits) = True"
| "browserAction ChromeKill = True"
| "browserAction ev = False"

fun interactiveAction :: "event \<Rightarrow> bool" where
  \<comment> \<open>the interactive authorization flow: the prompt and the exchange of the code\<close>
  "interactiveAction (Question q) = True"
| "interactiveAction (GetToken client code) = True"
| "interactiveAction ev = False"

fun deliveryAction :: "event \<Rightarrow> bool" where
  \<comment> \<open>the requests to the Drive and Sheets services\<close>
  "deliveryAction (DriveFilesCopy auth fileId) = True"
| "deliveryAction (SheetsValuesUpdate auth spreadsheetId range' valueInputOption values) = True"
| "deliveryAction ev = False"

fun updateAction :: "event \<Rightarrow> bool" where
  "updateAction (SheetsValuesUpdate auth spreadsheetId range' valueInputOption values) = True"
| "updateAction ev = False"

fun credentialAction :: "event \<Rightarrow> bool" where
  \<comment> \<open>everything of the credential stage and of the delivery: the token store, the
      interactive flow, the requests to Drive and Sheets\<close>
  "credentialAction (ReadFile path) = (path = TOKEN_PATH)"
| "credentialAction (WriteFile path tok) = True"
| "credentialAction ev = (interactiveAction ev \<or> deliveryAction ev)"

fun auditStageAction :: "event \<Rightarrow> bool" where
  \<comment> \<open>what a run can do before it reads \<open>credentials.json\<close>: print, drive the browser
      and the audit, or end with an exception\<close>
  "auditStageAction (ConsoleLog args) = True"
| "auditStageAction (Uncaught e) = True"
| "auditStageAction ev = browserAction ev"

definition audit_events :: "string \<Rightarrow> nat \<Rightarrow> item list option \<Rightarrow> event list" where
  \<comment> \<open>the actions of a run whose audit succeeds, up to the read of \<open>credentials.json\<close>\<close>
  "audit_events url port items =
     [ConsoleLog [Str []],
      ConsoleLog [Str (''Program has started. Analysing 3rd party script on: '' @ url)],
      ConsoleLog [Str ''Opening Chrome to make Lighthouse run...''],
      ChromeLaunch [''--headless''],
      Lighthouse url port [''third-party-summary''],
      ChromeKill,
      ConsoleLog [ItemsArg items],
      ReadFile ''credentials.json'']"

subsection \<open>Concrete worlds\<close>

definition example_item :: item where
  "example_item =
     \<lparr>entity_text = ''Example Ads'', blockingTime = Finite False [1,5,0,7] 3,
      mainThreadTime = Finite False [3,0,0,2] 3, transferSize = Finite False [1,0,2,4] 5\<rparr>"

definition example_installed :: installed where
  "example_installed =
     \<lparr>client_id = ''id'', client_secret = ''secret'',
      redirect_uris = Some [''http://localhost'']\<rparr>"

definition cached_world :: world where
  \<comment> \<open>everything succeeds and \<open>token.json\<close> holds a token\<close>
  "cached_world =
     \<lparr>argv2 = Some ''https://example.com'',
      chrome_launch = Inr 9222,
      lighthouse_run = (\<lambda>url. Inr (Details (Some [example_item]))),
      chrome_kill = None,
      credentials_file = Inr (JSON (Some example_installed)),
      token_file = Inr (JSON ''cached''),
      generateAuthUrl = (\<lambda>scopes. ''https://accounts.google.com/o/oauth2/v2/auth''),
      entered_code = Some ''4/code'',
      getToken = (\<lambda>code. Inr ''fresh''),
      token_write = None,
      files_copy = (\<lambda>auth fileId. Inr ''copy1''),
      values_update = (\<lambda>auth spreadsheetId range' valueInputOption values. Inr 6)\<rparr>"

definition interactive_world :: world where
  \<comment> \<open>everything succeeds and there is no \<open>token.json\<close>\<close>
  "interactive_world = cached_world\<lparr>token_file := Inl ''ENOENT''\<rparr>"

definition example_client :: OAuth2Client where
  "example_client =
     \<lparr>clientId = ''id'', clientSecret = ''secret'', redirectUri = Some ''http://localhost'',
      credentials = None\<rparr>"

definition conversion_item :: item where
  \<comment> \<open>blocking time 1234.9 ms, main-thread time 300.2 ms, 2048 bytes\<close>
  "conversion_item =
     \<lparr>entity_text = ''cdn.example.com'', blockingTime = Finite False [1,2,3,4,9] 4,
      mainThreadTime = Finite False [3,0,0,2] 3, transferSize = Finite False [2,0,4,8] 4\<rparr>"

definition counter_item :: item where
  \<comment> \<open>blocking time 1e-7 ms, main-thread time 0, 2048.5 bytes\<close>
  "counter_item =
     \<lparr>entity_text = ''cdn.example.com'', blockingTime = Finite False [1] (- 6),
      mainThreadTime = Zero, transferSize = Finite False [2,0,4,8,5] 4\<rparr>"

definition no_credentials_world :: world where
  "no_credentials_world = cached_world\<lparr>credentials_file := Inl ''ENOENT''\<rparr>"

definition copy_fails_world :: world where
  "copy_fails_world = cached_world\<lparr>files_copy := (\<lambda>auth fileId. Inl ''Error: File not found'')\<rparr>"

definition write_fails_world :: world where
  "write_fails_world = interactive_world\<lparr>token_write := Some ''EACCES''\<rparr>"

definition bad_token_world :: world where
  "bad_token_world = cached_world\<lparr>token_file := Inr NotJSON\<rparr>"

section \<open>The first occurrence of a substring\<close>

lemma firstOccurrence_iff:
  "firstOccurrence s pat i \<longleftrightarrow>
     i \<le> length s \<and> prefix pat (drop i s) \<and> (\<forall>j\<in>{..<i}. \<not> prefix pat (drop j s))"
  by (auto simp: firstOccurrence_def list_all_iff)

lemma firstOccurrence_Nil: "firstOccurrence [] pat i \<longleftrightarrow> i = 0 \<and> pat = []"
  by (auto simp: firstOccurrence_iff)

lemma firstOccurrence_Cons:
  "firstOccurrence (c # cs) pat i \<longleftrightarrow>
     (if prefix pat (c # cs) then i = 0 else \<exists>j. i = Suc j \<and> firstOccurrence cs pat j)"
proof (cases i)
  case 0
  then show ?thesis by (auto simp: firstOccurrence_iff)
next
  case (Suc j)
  have "(\<forall>m\<in>{..<Suc j}. \<not> prefix pat (drop m (c # cs)))
        \<longleftrightarrow> \<not> prefix pat (c # cs) \<and> (\<forall>m\<in>{..<j}. \<not> prefix pat (drop m cs))"
    by (simp add: lessThan_Suc_eq_insert_0)
  with Suc show ?thesis by (auto simp: firstOccurrence_iff)
qed

lemma firstOccurrence_unique:
  "firstOccurrence s pat i \<Longrightarrow> firstOccurrence s pat j \<Longrightarrow> i = j"
  unfolding firstOccurrence_iff by (meson lessThan_iff linorder_neqE_nat)

lemma indexOfFrom_cases:
  "(indexOfFrom s pat k = - 1 \<and> (\<forall>i. \<not> firstOccurrence s pat i))
   \<or> (\<exists>i. firstOccurrence s pat i \<and> indexOfFrom s pat k = int (k + i))"
proof (induction s arbitrary: k)
  case Nil
  show ?case by (simp add: firstOccurrence_Nil)
next
  case (Cons c cs)
  show ?case
  proof (cases "prefix pat (c # cs)")
    case True
    then have "firstOccurrence (c # cs) pat 0" by (simp add: firstOccurrence_Cons)
    with True show ?thesis by force
  next
    case False
    from Cons.IH [of "Suc k"] False show ?thesis
      by (auto simp: firstOccurrence_Cons)
  qed
qed

lemma indexOf_eq_iff: "indexOf s pat = int i \<longleftrightarrow> firstOccurrence s pat i"
  using indexOfFrom_cases [of s pat 0] firstOccurrence_unique [of s pat]
  by (auto simp: indexOf_def)

lemma indexOf_range: "indexOf s pat = - 1 \<or> (\<exists>i. indexOf s pat = int i)"
  using indexOfFrom_cases [of s pat 0] by (auto simp: indexOf_def)

lemma indexOf_pos_iff: "indexOf s pat > 0 \<longleftrightarrow> (\<exists>i>0. firstOccurrence s pat i)"
proof
  assume pos: "indexOf s pat > 0"
  with indexOf_range [of s pat] obtain i where i: "indexOf s pat = int i" by auto
  with pos have "i > 0" by simp
  with i show "\<exists>i>0. firstOccurrence s pat i" by (auto simp: indexOf_eq_iff)
next
  assume "\<exists>i>0. firstOccurrence s pat i"
  then obtain i where "i > 0" "indexOf s pat = int i" by (auto simp: indexOf_eq_iff)
  then show "indexOf s pat > 0" by simp
qed

lemma indexOf_zero_iff: "indexOf s pat = 0 \<longleftrightarrow> prefix pat s"
  using indexOf_eq_iff [of s pat 0] by (simp add: firstOccurrence_iff)

lemma indexOf_absent: "\<not> prefix pat s \<Longrightarrow> length s \<le> length pat \<Longrightarrow> indexOf s pat = - 1"
proof -
  assume np: "\<not> prefix pat s" and len: "length s \<le> length pat"
  have "\<not> firstOccurrence s pat i" for i
  proof
    assume f: "firstOccurrence s pat i"
    then have "prefix pat (drop i s)" and i: "i \<le> length s"
      by (simp_all add: firstOccurrence_iff)
    then have "length pat \<le> length s - i" using prefix_length_le by fastforce
    with len i have "i = 0" by simp
    with f np show False by (simp add: firstOccurrence_iff)
  qed
  with indexOf_range [of s pat] show ?thesis by (auto simp: indexOf_eq_iff)
qed

lemma occursAfterStart_iff:
  "occursAfterStart s pat \<longleftrightarrow> (\<exists>i. 0 < i \<and> i \<le> length s \<and> prefix pat (drop i s))"
  by (auto simp: occursAfterStart_def list_ex_iff Suc_le_eq less_Suc_eq_le)

lemma first_of_occurrence:
  assumes "i \<le> length s" and "prefix pat (drop i s)"
  shows "\<exists>j\<le>i. firstOccurrence s pat j"
proof -
  define P where "P k \<longleftrightarrow> prefix pat (drop k s)" for k
  from assms(2) have "P i" by (simp add: P_def)
  then have "\<exists>j. P j \<and> (\<forall>k<j. \<not> P k)" using exists_least_iff [of P] by blast
  then obtain j where j: "P j" "\<forall>k<j. \<not> P k" by blast
  with \<open>P i\<close> have "j \<le> i" by (meson not_le)
  with j assms(1) show ?thesis by (auto simp: firstOccurrence_iff P_def)
qed

lemma occursAfterStart_first:
  assumes "\<not> prefix pat s"
  shows "occursAfterStart s pat \<longleftrightarrow> (\<exists>i>0. firstOccurrence s pat i)"
proof
  assume "occursAfterStart s pat"
  then obtain i where i: "0 < i" "i \<le> length s" "prefix pat (drop i s)"
    by (auto simp: occursAfterStart_iff)
  from first_of_occurrence [OF i(2,3)] obtain j where j: "firstOccurrence s pat j" by blast
  with assms have "j \<noteq> 0" by (auto simp: firstOccurrence_iff)
  with j show "\<exists>i>0. firstOccurrence s pat i" by auto
next
  assume "\<exists>i>0. firstOccurrence s pat i"
  then show "occursAfterStart s pat"
    by (auto simp: occursAfterStart_iff firstOccurrence_iff)
qed

section \<open>The classifier\<close>

text \<open>
  C4, as stated: the name is classified "Ads" when its lower-casing contains " ads" at a
  position greater than 0, otherwise "Analytics" when it contains "analytics" at a position
  greater than 0. The program asks for the position of the first occurrence only: a name
  that starts with the substring and contains it again later is classified by the
  specification's words and not by the program.
\<close>

theorem classify_spec_counterexample:
  "mapTagNameToType ''Analytics by Google Analytics'' = ''other''
   \<and> classify_spec ''Analytics by Google Analytics'' = ''Analytics''
   \<and> mapTagNameToType '' Ads Ads'' = ''other''
   \<and> classify_spec '' Ads Ads'' = ''Ads''"
proof -
  have c1: "mapTagNameToType ''Analytics by Google Analytics'' = ''other''" by code_simp
  have s1: "classify_spec ''Analytics by Google Analytics'' = ''Analytics''" by code_simp
  have c2: "mapTagNameToType '' Ads Ads'' = ''other''" by code_simp
  have s2: "classify_spec '' Ads Ads'' = ''Ads''" by code_simp
  from c1 s1 c2 s2 show ?thesis by simp
qed

text \<open>
  C4, amended: the result is one of "Ads", "Analytics" and "other"; it is "Ads" exactly
  when the first occurrence of " ads" in the lower-cased name is at a position greater
  than 0; otherwise it is "Analytics" exactly when the first occurrence of "analytics" is
  at a position greater than 0; otherwise it is "other". When both first occurrences are
  at a position greater than 0 the result is "Ads", whichever comes first. Two names with
  the same lower-casing have the same class, and the three examples hold.
\<close>

theorem mapTagNameToType_first_occurrence:
  "mapTagNameToType name \<in> {''Ads'', ''Analytics'', ''other''}
   \<and> (mapTagNameToType name = ''Ads''
        \<longleftrightarrow> (\<exists>i>0. firstOccurrence (toLowerCase name) '' ads'' i))
   \<and> (mapTagNameToType name = ''Analytics''
        \<longleftrightarrow> \<not> (\<exists>i>0. firstOccurrence (toLowerCase name) '' ads'' i)
            \<and> (\<exists>i>0. firstOccurrence (toLowerCase name) ''analytics'' i))
   \<and> (mapTagNameToType name = ''other''
        \<longleftrightarrow> \<not> (\<exists>i>0. firstOccurrence (toLowerCase name) '' ads'' i)
            \<and> \<not> (\<exists>i>0. firstOccurrence (toLowerCase name) ''analytics'' i))
   \<and> ((\<exists>i>0. firstOccurrence (toLowerCase name) '' ads'' i)
        \<and> (\<exists>i>0. firstOccurrence (toLowerCase name) ''analytics'' i)
        \<longrightarrow> mapTagNameToType name = ''Ads'')
   \<and> (toLowerCase name' = toLowerCase name
        \<longrightarrow> mapTagNameToType name' = mapTagNameToType name)
   \<and> mapTagNameToType ''Example Ads Co'' = ''Ads''
   \<and> mapTagNameToType ''google-analytics.com'' = ''Analytics''
   \<and> mapTagNameToType ''cdn.example.com'' = ''other''"
proof -
  have range: "mapTagNameToType name \<in> {''Ads'', ''Analytics'', ''other''}"
    by (simp add: mapTagNameToType_def)
  have ads: "mapTagNameToType name = ''Ads''
        \<longleftrightarrow> (\<exists>i>0. firstOccurrence (toLowerCase name) '' ads'' i)"
    by (simp add: mapTagNameToType_def indexOf_pos_iff)
  have analytics: "mapTagNameToType name = ''Analytics''
        \<longleftrightarrow> \<not> (\<exists>i>0. firstOccurrence (toLowerCase name) '' ads'' i)
            \<and> (\<exists>i>0. firstOccurrence (toLowerCase name) ''analytics'' i)"
    by (simp add: mapTagNameToType_def indexOf_pos_iff)
  have other: "mapTagNameToType name = ''other''
        \<longleftrightarrow> \<not> (\<exists>i>0. firstOccurrence (toLowerCase name) '' ads'' i)
            \<and> \<not> (\<exists>i>0. firstOccurrence (toLowerCase name) ''analytics'' i)"
    by (simp add: mapTagNameToType_def indexOf_pos_iff)
  have same: "toLowerCase name' = toLowerCase name
        \<longrightarrow> mapTagNameToType name' = mapTagNameToType name"
    by (simp add: mapTagNameToType_def)
  have e1: "mapTagNameToType ''Example Ads Co'' = ''Ads''" by code_simp
  have e2: "mapTagNameToType ''google-analytics.com'' = ''Analytics''" by code_simp
  have e3: "mapTagNameToType ''cdn.example.com'' = ''other''" by code_simp
  from ads have both: "(\<exists>i>0. firstOccurrence (toLowerCase name) '' ads'' i)
        \<and> (\<exists>i>0. firstOccurrence (toLowerCase name) ''analytics'' i)
        \<longrightarrow> mapTagNameToType name = ''Ads''"
    by blast
  from range ads analytics other both same e1 e2 e3 show ?thesis by blast
qed

theorem mapTagNameToType_first_occurrence_witness:
  "toLowerCase ''EXAMPLE ADS CO'' = toLowerCase ''Example Ads Co''
   \<and> mapTagNameToType ''EXAMPLE ADS CO'' = ''Ads''
   \<and> firstOccurrence (toLowerCase ''Web Analytics Ads'') '' ads'' 13
   \<and> firstOccurrence (toLowerCase ''Web Analytics Ads'') ''analytics'' 4
   \<and> mapTagNameToType ''Web Analytics Ads'' = ''Ads''"
proof -
  have low: "toLowerCase ''EXAMPLE ADS CO'' = toLowerCase ''Example Ads Co''"
    by code_simp
  have f1: "firstOccurrence (toLowerCase ''Web Analytics Ads'') '' ads'' 13" by code_simp
  have f2: "firstOccurrence (toLowerCase ''Web Analytics Ads'') ''analytics'' 4" by code_simp
  from f1 f2 have both: "(\<exists>i>0. firstOccurrence (toLowerCase ''Web Analytics Ads'') '' ads'' i)
      \<and> (\<exists>i>0. firstOccurrence (toLowerCase ''Web Analytics Ads'') ''analytics'' i)"
    by (metis zero_less_numeral)
  from low both f1 f2
    mapTagNameToType_first_occurrence [of "''Example Ads Co''" "''EXAMPLE ADS CO''"]
    mapTagNameToType_first_occurrence [of "''Web Analytics Ads''"]
  show ?thesis by simp
qed

text \<open>
  The program and the specification's words agree on every name whose lower-casing starts
  neither with " ads" nor with "analytics".
\<close>

lemma classify_spec_agrees:
  assumes "\<not> prefix '' ads'' (toLowerCase name)" and "\<not> prefix ''analytics'' (toLowerCase name)"
  shows "mapTagNameToType name = classify_spec name"
  using assms
  by (simp add: mapTagNameToType_def classify_spec_def indexOf_pos_iff occursAfterStart_first)

text \<open>
  C5: a match at position 0 is not recognized. A name whose lower-casing is exactly
  "ads" or exactly "analytics" is classified "other"; more generally a name whose
  lower-casing starts with " ads" is not classified "Ads", and one whose lower-casing
  starts with "analytics" is not classified "Analytics".
\<close>

theorem mapTagNameToType_position_0:
  "(toLowerCase name = ''ads'' \<or> toLowerCase name = ''analytics''
      \<longrightarrow> mapTagNameToType name = ''other'')
   \<and> (prefix '' ads'' (toLowerCase name) \<longrightarrow> mapTagNameToType name \<noteq> ''Ads'')
   \<and> (prefix ''analytics'' (toLowerCase name) \<longrightarrow> mapTagNameToType name \<noteq> ''Analytics'')"
proof -
  have exact: "mapTagNameToType name = ''other''"
    if "toLowerCase name = ''ads'' \<or> toLowerCase name = ''analytics''"
  proof -
    from that have "indexOf (toLowerCase name) '' ads'' = - 1
                    \<and> indexOf (toLowerCase name) ''analytics'' \<le> 0"
    proof
      assume l: "toLowerCase name = ''ads''"
      then show ?thesis by (simp add: indexOf_absent)
    next
      assume l: "toLowerCase name = ''analytics''"
      then have "indexOf (toLowerCase name) ''analytics'' = 0" by (simp add: indexOf_zero_iff)
      moreover have "indexOf (toLowerCase name) '' ads'' = - 1"
        using l by (simp add: indexOf_def)
      ultimately show ?thesis by simp
    qed
    then show ?thesis by (simp add: mapTagNameToType_def)
  qed
  have ads: "mapTagNameToType name \<noteq> ''Ads''" if "prefix '' ads'' (toLowerCase name)"
    using that by (simp add: mapTagNameToType_def indexOf_zero_iff [symmetric])
  have analytics: "mapTagNameToType name \<noteq> ''Analytics''"
    if "prefix ''analytics'' (toLowerCase name)"
    using that by (simp add: mapTagNameToType_def indexOf_zero_iff [symmetric])
  from exact ads analytics show ?thesis by blast
qed

theorem mapTagNameToType_position_0_witness:
  "toLowerCase ''ADS'' = ''ads'' \<and> mapTagNameToType ''ADS'' = ''other''
   \<and> toLowerCase ''Analytics'' = ''analytics'' \<and> mapTagNameToType ''Analytics'' = ''other''
   \<and> prefix '' ads'' (toLowerCase '' Ads Inc'') \<and> mapTagNameToType '' Ads Inc'' \<noteq> ''Ads''
   \<and> prefix ''analytics'' (toLowerCase ''Analytics Ltd'')
   \<and> mapTagNameToType ''Analytics Ltd'' \<noteq> ''Analytics''"
proof -
  have l1: "toLowerCase ''ADS'' = ''ads''" by code_simp
  have l2: "toLowerCase ''Analytics'' = ''analytics''" by code_simp
  have l3: "prefix '' ads'' (toLowerCase '' Ads Inc'')" by code_simp
  have l4: "prefix ''analytics'' (toLowerCase ''Analytics Ltd'')" by code_simp
  from l1 l2 l3 l4
    mapTagNameToType_position_0 [of "''ADS''"]
    mapTagNameToType_position_0 [of "''Analytics''"]
    mapTagNameToType_position_0 [of "'' Ads Inc''"]
    mapTagNameToType_position_0 [of "''Analytics Ltd''"]
  show ?thesis by blast
qed

section \<open>Digits and their characters\<close>

lemma of_char_digitChar: "d < 10 \<Longrightarrow> (of_char (digitChar d) :: nat) = 48 + d"
  by (simp add: digitChar_def)

lemma isDigit_digitChar: "d < 10 \<Longrightarrow> isDigit (digitChar d)"
  by (simp add: isDigit_def of_char_digitChar)

lemma digitChar_no_sign:
  assumes "d < 10"
  shows "digitChar d \<noteq> CHR ''-''" and "digitChar d \<noteq> CHR ''+''"
proof -
  show "digitChar d \<noteq> CHR ''-''"
  proof
    assume "digitChar d = CHR ''-''"
    then have "(of_char (digitChar d) :: nat) = of_char (CHR ''-'')" by simp
    with assms show False by (simp add: of_char_digitChar)
  qed
  show "digitChar d \<noteq> CHR ''+''"
  proof
    assume "digitChar d = CHR ''+''"
    then have "(of_char (digitChar d) :: nat) = of_char (CHR ''+'')" by simp
    with assms show False by (simp add: of_char_digitChar)
  qed
qed

lemma not_isDigit_point: "\<not> isDigit (CHR ''.'')"
  by (simp add: isDigit_def)

lemma isDigit_zero: "isDigit (CHR ''0'')"
  by (simp add: isDigit_def)

lemma takeWhile_digits:
  "list_all (\<lambda>d. d < 10) ds \<Longrightarrow>
   takeWhile isDigit (map digitChar ds @ rest) = map digitChar ds @ takeWhile isDigit rest"
  by (induction ds) (simp_all add: isDigit_digitChar)

lemma foldl_digitChar:
  "list_all (\<lambda>d. d < 10) ds \<Longrightarrow>
   foldl (\<lambda>a c. 10 * a + ((of_char c :: nat) - 48)) a (map digitChar ds)
   = foldl (\<lambda>a d. 10 * a + d) a ds"
  by (induction ds arbitrary: a) (simp_all add: of_char_digitChar)

lemma digitsOf_digits: "list_all (\<lambda>d. d < 10) ds \<Longrightarrow> digitsOf (map digitChar ds) = digitsValue ds"
  by (simp add: digitsOf_def digitsValue_def foldl_digitChar)

lemma foldl_zeros:
  "foldl (\<lambda>a c. 10 * a + ((of_char c :: nat) - 48)) a (replicate m (CHR ''0'')) = a * 10 ^ m"
  by (induction m arbitrary: a) simp_all

lemma digitsOf_zeros: "digitsOf (z @ replicate m (CHR ''0'')) = digitsOf z * 10 ^ m"
  by (simp add: digitsOf_def foldl_zeros)

lemma foldl_digits_shift:
  "foldl (\<lambda>a d. 10 * a + d) (b::nat) es = b * 10 ^ length es + foldl (\<lambda>a d. 10 * a + d) 0 es"
proof (induction es arbitrary: b)
  case Nil
  show ?case by simp
next
  case (Cons e es)
  have "foldl (\<lambda>a d. 10 * a + d) (10 * b + e) es
        = (10 * b + e) * 10 ^ length es + foldl (\<lambda>a d. 10 * a + d) 0 es"
    by (rule Cons.IH)
  moreover have "foldl (\<lambda>a d. 10 * a + d) e es
        = e * 10 ^ length es + foldl (\<lambda>a d. 10 * a + d) 0 es"
    by (rule Cons.IH)
  ultimately show ?case by (simp add: algebra_simps)
qed

lemma digitsValue_append:
  "digitsValue (ds @ es) = digitsValue ds * 10 ^ length es + digitsValue es"
  using foldl_digits_shift [of "digitsValue ds" es] by (simp add: digitsValue_def)

lemma digitsValue_less: "list_all (\<lambda>d. d < 10) ds \<Longrightarrow> digitsValue ds < 10 ^ length ds"
proof (induction ds rule: rev_induct)
  case Nil
  show ?case by (simp add: digitsValue_def)
next
  case (snoc d ds)
  then have "digitsValue ds < 10 ^ length ds" and "d < 10" by simp_all
  then have "10 * digitsValue ds + d < 10 * 10 ^ length ds" by simp
  then show ?case by (simp add: digitsValue_append digitsValue_def)
qed

lemma digitsValue_take:
  assumes "list_all (\<lambda>d. d < 10) ds" and "j \<le> length ds"
  shows "digitsValue (take j ds) = digitsValue ds div 10 ^ (length ds - j)"
proof -
  have "list_all (\<lambda>d. d < 10) (drop j ds)"
    using assms(1) by (auto simp: list_all_iff dest: in_set_dropD)
  then have less: "digitsValue (drop j ds) < 10 ^ (length ds - j)"
    using digitsValue_less [of "drop j ds"] by simp
  have "digitsValue ds = digitsValue (take j ds) * 10 ^ (length ds - j) + digitsValue (drop j ds)"
    using digitsValue_append [of "take j ds" "drop j ds"] by simp
  with less show ?thesis by simp
qed

section \<open>Truncation\<close>

lemma truncateRat_of_nat_div:
  "truncateRat (of_nat a / 10 ^ m) = int (a div 10 ^ m)"
proof -
  have "(of_nat a / 10 ^ m :: rat) = of_nat a / of_nat (10 ^ m)" by simp
  then have "\<lfloor>of_nat a / 10 ^ m :: rat\<rfloor> = int (a div 10 ^ m)"
    by (simp only: floor_divide_of_nat_eq)
  moreover have "\<not> (of_nat a / 10 ^ m :: rat) < 0" by (simp add: not_less)
  ultimately show ?thesis by (simp add: truncateRat_def)
qed

lemma truncateRat_minus: "truncateRat (- v) = - truncateRat v"
  by (auto simp: truncateRat_def ceiling_def)

lemma truncateRat_of_nat: "truncateRat (of_nat a * 10 ^ m) = int (a * 10 ^ m)"
proof -
  have eq: "(of_nat a * 10 ^ m :: rat) = of_nat (a * 10 ^ m)" by simp
  have "\<not> (of_nat (a * 10 ^ m) :: rat) < 0" by (simp only: of_nat_less_0_iff) simp
  then show ?thesis unfolding eq truncateRat_def by (simp only: floor_of_nat if_False)
qed

section \<open>\<open>parseInt\<close> on a Number in plain notation\<close>

lemma parseDecimal_unsigned:
  assumes "u = c # r" and "c \<noteq> CHR ''-''" and "c \<noteq> CHR ''+''"
    and "takeWhile isDigit u = z" and "z \<noteq> []"
  shows "parseDecimal u = Num (of_int (int (digitsOf z)))"
    and "parseDecimal (CHR ''-'' # u) = Num (of_int (- int (digitsOf z)))"
  using assms by (simp_all add: parseDecimal_def Let_def)

text \<open>The digits that \<open>parseInt\<close> reads from the plain notation of a positive Number.\<close>

lemma plain_digits:
  assumes ne: "ds \<noteq> []" and dig: "list_all (\<lambda>d. d < 10) ds"
    and lo: "- 5 \<le> n" and hi: "n \<le> 21"
  defines "v \<equiv> (if int (length ds) \<le> n then of_nat (digitsValue ds) * 10 ^ nat (n - int (length ds))
                 else of_nat (digitsValue ds) / 10 ^ nat (int (length ds) - n) :: rat)"
  shows "\<exists>c r z. unsignedToString ds n = c # r \<and> c \<noteq> CHR ''-'' \<and> c \<noteq> CHR ''+''
           \<and> takeWhile isDigit (unsignedToString ds n) = z \<and> z \<noteq> []
           \<and> int (digitsOf z) = truncateRat v"
proof -
  from ne obtain d ds' where ds: "ds = d # ds'" by (cases ds) auto
  with dig have d: "d < 10" by simp
  consider (whole) "int (length ds) \<le> n" | (point) "0 < n" "n < int (length ds)" | (small) "n \<le> 0"
    by linarith
  then show ?thesis
  proof cases
    case whole
    let ?m = "nat (n - int (length ds))"
    have str: "unsignedToString ds n = map digitChar ds @ replicate ?m (CHR ''0'')"
      using whole lo hi by (simp add: unsignedToString_def Let_def)
    have tw: "takeWhile isDigit (unsignedToString ds n) = map digitChar ds @ replicate ?m (CHR ''0'')"
      by (simp add: str takeWhile_digits [OF dig] isDigit_zero)
    have val: "int (digitsOf (map digitChar ds @ replicate ?m (CHR ''0''))) = truncateRat v"
      using whole by (simp add: v_def digitsOf_zeros digitsOf_digits [OF dig] truncateRat_of_nat)
    from str tw val ds digitChar_no_sign [OF d] show ?thesis by simp
  next
    case point
    let ?j = "nat n"
    have j: "?j \<le> length ds" "0 < ?j" using point by simp_all
    have str: "unsignedToString ds n
               = map digitChar (take ?j ds) @ CHR ''.'' # map digitChar (drop ?j ds)"
      using point lo hi by (simp add: unsignedToString_def Let_def)
    have digt: "list_all (\<lambda>d. d < 10) (take ?j ds)"
      using dig by (auto simp: list_all_iff dest: in_set_takeD)
    have tw: "takeWhile isDigit (unsignedToString ds n) = map digitChar (take ?j ds)"
      by (simp add: str takeWhile_digits [OF digt] not_isDigit_point)
    have "nat (int (length ds) - n) = length ds - ?j" using point by simp
    then have val: "int (digitsOf (map digitChar (take ?j ds))) = truncateRat v"
      using point j
      by (simp add: v_def digitsOf_digits [OF digt] digitsValue_take [OF dig] truncateRat_of_nat_div)
    have tk: "take ?j ds = d # take (?j - 1) ds'"
      using j ds by (cases ?j) simp_all
    have hd: "unsignedToString ds n = digitChar d # map digitChar (take (?j - 1) ds')
                @ CHR ''.'' # map digitChar (drop ?j ds)"
      by (simp add: str tk)
    have "map digitChar (take ?j ds) \<noteq> []" using j ne by simp
    with hd tw val digitChar_no_sign [OF d] show ?thesis by simp
  next
    case small
    let ?m = "nat (int (length ds) - n)"
    have len: "0 < int (length ds)" using ne by simp
    with small have nk: "\<not> int (length ds) \<le> n" by linarith
    have str: "unsignedToString ds n
               = CHR ''0'' # CHR ''.'' # replicate (nat (- n)) (CHR ''0'') @ map digitChar ds"
      using small lo hi nk by (simp add: unsignedToString_def Let_def)
    have tw: "takeWhile isDigit (unsignedToString ds n) = ''0''"
      by (simp add: str isDigit_zero not_isDigit_point)
    have "length ds \<le> ?m" using small by simp
    then have "(10::nat) ^ length ds \<le> 10 ^ ?m" by (intro power_increasing) simp_all
    with digitsValue_less [OF dig] have "digitsValue ds < 10 ^ ?m" by (rule less_le_trans)
    then have "digitsValue ds div 10 ^ ?m = 0" by simp
    then have "truncateRat v = 0"
      using nk by (simp add: v_def truncateRat_of_nat_div)
    moreover have "digitsOf ''0'' = 0" by (simp add: digitsOf_def)
    ultimately show ?thesis using str tw by simp
  qed
qed

lemma parseInt_plain:
  assumes "plainNotation x"
  shows "\<exists>v. numberValue x = Some v \<and> parseInt x = Num (of_int (truncateRat v))"
proof (cases x)
  case NotANumber
  with assms show ?thesis by (simp add: plainNotation_def)
next
  case (Infinite neg)
  with assms show ?thesis by (simp add: plainNotation_def)
next
  case Zero
  have "takeWhile isDigit ''0'' = ''0''" by (simp add: isDigit_zero)
  then have "parseDecimal ''0'' = Num 0"
    by (simp add: parseDecimal_def Let_def digitsOf_def)
  with Zero show ?thesis
    by (simp add: numberValue_def parseInt_def toString_def truncateRat_def)
next
  case (Finite neg ds n)
  with assms have ne: "ds \<noteq> []" and dig: "list_all (\<lambda>d. d < 10) ds"
    and lo: "- 5 \<le> n" and hi: "n \<le> 21"
    by (simp_all add: plainNotation_def)
  define v :: rat where
    "v = (if int (length ds) \<le> n then of_nat (digitsValue ds) * 10 ^ nat (n - int (length ds))
          else of_nat (digitsValue ds) / 10 ^ nat (int (length ds) - n))"
  from plain_digits [OF ne dig lo hi] obtain c r z where
    u: "unsignedToString ds n = c # r" "c \<noteq> CHR ''-''" "c \<noteq> CHR ''+''"
       "takeWhile isDigit (unsignedToString ds n) = z" "z \<noteq> []"
    and z: "int (digitsOf z) = truncateRat v"
    unfolding v_def by blast
  show ?thesis
  proof (cases neg)
    case True
    have "numberValue x = Some (- v)"
      using Finite True by (simp add: numberValue_def Let_def v_def)
    moreover have "parseInt x = Num (of_int (truncateRat (- v)))"
      using Finite True parseDecimal_unsigned(2) [OF u] z
      by (simp add: parseInt_def toString_def truncateRat_minus)
    ultimately show ?thesis by simp
  next
    case False
    have "numberValue x = Some v"
      using Finite False by (simp add: numberValue_def Let_def v_def)
    moreover have "parseInt x = Num (of_int (truncateRat v))"
      using Finite False parseDecimal_unsigned(1) [OF u] z
      by (simp add: parseInt_def toString_def)
    ultimately show ?thesis by simp
  qed
qed

section \<open>Unit conversions of a row\<close>

lemma rowOf_nth:
  "rowOf url it ! 0 = Text url"
  "rowOf url it ! 1 = Text (entity_text it)"
  "rowOf url it ! 2 = Text (mapTagNameToType (entity_text it))"
  "rowOf url it ! 3 = Numeric (parseInt (blockingTime it))"
  "rowOf url it ! 4 = Numeric (parseInt (mainThreadTime it))"
  "rowOf url it ! 5 = Numeric (divide_num (parseInt (transferSize it)) 1024)"
  by (simp_all add: rowOf_def Let_def numeral_nat)

text \<open>
  C6, as stated: every time is truncated to integer milliseconds, and the transfer size
  is the byte value divided by 1024 with nothing rounded or truncated. A blocking time of
  1e-7 ms is written "1e-7" by the conversion to a string that \<open>parseInt\<close> starts with,
  and becomes 1, not 0; a transfer size of 2048.5 bytes goes through \<open>parseInt\<close> as well
  and becomes 2048 / 1024 = 2, not 2048.5 / 1024.
\<close>

theorem unit_conversion_counterexample:
  "truncatedMs_spec (blockingTime counter_item) = Some (Num 0)
   \<and> rowOf ''https://example.com'' counter_item ! 3 = Numeric (Num 1)
   \<and> kilobytes_spec (transferSize counter_item) = Some (Num (4097 / 2048))
   \<and> rowOf ''https://example.com'' counter_item ! 5 = Numeric (Num 2)"
proof -
  have "truncateRat (1 / 10000000) = 0"
    using truncateRat_of_nat_div [of 1 7] by simp
  then have s1: "truncatedMs_spec (blockingTime counter_item) = Some (Num 0)"
    by (simp add: counter_item_def truncatedMs_spec_def numberValue_def digitsValue_def)
  have p1: "parseInt (blockingTime counter_item) = Num 1" by code_simp
  have s2: "kilobytes_spec (transferSize counter_item) = Some (Num (4097 / 2048))"
    by (simp add: counter_item_def kilobytes_spec_def numberValue_def digitsValue_def)
  have p2: "parseInt (transferSize counter_item) = Num 2048" by code_simp
  have c1: "rowOf ''https://example.com'' counter_item ! 3 = Numeric (Num 1)"
    by (simp only: rowOf_nth p1)
  have c2: "rowOf ''https://example.com'' counter_item ! 5 = Numeric (Num 2)"
    by (simp add: rowOf_nth p2 divide_num_def)
  from s1 c1 s2 c2 show ?thesis by simp
qed

text \<open>
  C6, amended: for every audited item whose three measurements are written in plain
  decimal notation by the conversion to a string (zero, or a magnitude from 1e-6 up to,
  and excluding, 1e21), blocking time and main-thread time are truncated towards zero (not
  rounded) to integers, and the transfer size is truncated to an integer number of bytes in
  the same way and then divided by 1024, the quotient being left as it is, neither rounded
  nor truncated; blockingTime = 1234.9 yields 1234 and transferSize = 2048 yields 2.
\<close>

theorem rowOf_unit_conversions:
  assumes "plainNotation (blockingTime it)" and "plainNotation (mainThreadTime it)"
    and "plainNotation (transferSize it)"
  shows "\<exists>b m t. numberValue (blockingTime it) = Some b
           \<and> numberValue (mainThreadTime it) = Some m
           \<and> numberValue (transferSize it) = Some t
           \<and> rowOf url it ! 3 = Numeric (Num (of_int (truncateRat b)))
           \<and> rowOf url it ! 4 = Numeric (Num (of_int (truncateRat m)))
           \<and> rowOf url it ! 5 = Numeric (Num (of_int (truncateRat t) / 1024))"
proof -
  from parseInt_plain [OF assms(1)] obtain b where
    b: "numberValue (blockingTime it) = Some b"
       "parseInt (blockingTime it) = Num (of_int (truncateRat b))" by blast
  from parseInt_plain [OF assms(2)] obtain m where
    m: "numberValue (mainThreadTime it) = Some m"
       "parseInt (mainThreadTime it) = Num (of_int (truncateRat m))" by blast
  from parseInt_plain [OF assms(3)] obtain t where
    t: "numberValue (transferSize it) = Some t"
       "parseInt (transferSize it) = Num (of_int (truncateRat t))" by blast
  from b m t show ?thesis by (simp add: rowOf_nth divide_num_def)
qed

theorem rowOf_unit_conversions_witness:
  "plainNotation (blockingTime conversion_item)
   \<and> plainNotation (mainThreadTime conversion_item)
   \<and> plainNotation (transferSize conversion_item)
   \<and> numberValue (blockingTime conversion_item) = Some (12349 / 10)
   \<and> numberValue (transferSize conversion_item) = Some 2048
   \<and> rowOf ''https://example.com'' conversion_item ! 3 = Numeric (Num 1234)
   \<and> rowOf ''https://example.com'' conversion_item ! 4 = Numeric (Num 300)
   \<and> rowOf ''https://example.com'' conversion_item ! 5 = Numeric (Num 2)"
proof -
  have p: "plainNotation (blockingTime conversion_item)"
    "plainNotation (mainThreadTime conversion_item)"
    "plainNotation (transferSize conversion_item)"
    by (simp_all add: conversion_item_def plainNotation_def)
  have v: "numberValue (blockingTime conversion_item) = Some (12349 / 10)"
    "numberValue (mainThreadTime conversion_item) = Some (3002 / 10)"
    "numberValue (transferSize conversion_item) = Some 2048"
    by (simp_all add: conversion_item_def numberValue_def digitsValue_def)
  have tr: "truncateRat (12349 / 10) = 1234" "truncateRat (3002 / 10) = 300"
    "truncateRat 2048 = 2048"
    using truncateRat_of_nat_div [of 12349 1] truncateRat_of_nat_div [of 3002 1]
      truncateRat_of_nat_div [of 2048 0]
    by simp_all
  from rowOf_unit_conversions [OF p, of "''https://example.com''"] obtain b m t where
    r: "numberValue (blockingTime conversion_item) = Some b"
       "numberValue (mainThreadTime conversion_item) = Some m"
       "numberValue (transferSize conversion_item) = Some t"
       "rowOf ''https://example.com'' conversion_item ! 3 = Numeric (Num (of_int (truncateRat b)))"
       "rowOf ''https://example.com'' conversion_item ! 4 = Numeric (Num (of_int (truncateRat m)))"
       "rowOf ''https://example.com'' conversion_item ! 5
          = Numeric (Num (of_int (truncateRat t) / 1024))"
    by blast
  from r(1-3) v have "b = 12349 / 10" "m = 3002 / 10" "t = 2048" by simp_all
  with r(4-6) tr have
    "rowOf ''https://example.com'' conversion_item ! 3 = Numeric (Num 1234)"
    "rowOf ''https://example.com'' conversion_item ! 4 = Numeric (Num 300)"
    "rowOf ''https://example.com'' conversion_item ! 5 = Numeric (Num 2)"
    by simp_all
  with p v show ?thesis by simp
qed

section \<open>Row assembly\<close>

lemma assembleRows_map: "assembleRows url items result = result @ map (rowOf url) items"
  by (induction items arbitrary: result) simp_all

text \<open>
  C7: the loop produces one row for each item, in the order of the items, with nothing
  sorted, dropped or merged: the rows are the items mapped one by one. There are as many
  rows as items, the row at each position comes from the item at that position, has six
  columns, and its first column is the URL as given.
\<close>

theorem assembleRows_order_preserving:
  "assembleRows url items [] = map (rowOf url) items
   \<and> length (assembleRows url items []) = length items
   \<and> (\<forall>i<length items.
         assembleRows url items [] ! i = rowOf url (items ! i)
         \<and> length (assembleRows url items [] ! i) = 6
         \<and> assembleRows url items [] ! i ! 0 = Text url)"
  by (simp add: assembleRows_map rowOf_nth) (simp add: rowOf_def Let_def)

theorem assembleRows_order_preserving_witness:
  "(1::nat) < length [example_item, conversion_item]
   \<and> length (assembleRows ''https://example.com'' [example_item, conversion_item] []) = 2
   \<and> assembleRows ''https://example.com'' [example_item, conversion_item] [] ! 1
       = rowOf ''https://example.com'' conversion_item
   \<and> assembleRows ''https://example.com'' [example_item, conversion_item] [] ! 1 ! 0
       = Text ''https://example.com''"
proof -
  note rows = assembleRows_order_preserving
    [of "''https://example.com''" "[example_item, conversion_item]"]
  note second = rows [THEN conjunct2, THEN conjunct2, rule_format, of 1]
  from rows second show ?thesis by simp
qed

section \<open>The run of the program\<close>

lemma trace_ended [simp]: "trace (ended es) = es" "detached (ended es) = []"
  by (simp_all add: ended_def)

lemma trace_after [simp]:
  "trace (after es out) = es @ trace out" "detached (after es out) = detached out"
  by (simp_all add: after_def)

lemma example_url_http: "indexOf ''https://example.com'' ''http'' = 0"
  by (simp add: indexOf_def)

lemmas world_defs = cached_world_def interactive_world_def example_installed_def
  no_credentials_world_def copy_fails_world_def write_fails_world_def bad_token_world_def

lemmas run_defs = main_def authorize_def getNewToken_def addResultsToSpeadsheet_def
  writeSheet_def launchChromeAndRunLighthouse_def Let_def

subsection \<open>Where an update request comes from\<close>

lemma update_in_addResultsToSpeadsheet:
  assumes "ev \<in> set (addResultsToSpeadsheet w auth items)" and "updateAction ev"
  shows "\<exists>sid. files_copy w auth TEMPLATE_ID = Inr sid
           \<and> ev = SheetsValuesUpdate auth sid ''Actions!A2:F'' ''RAW'' items"
  using assms
  by (auto simp: addResultsToSpeadsheet_def writeSheet_def Let_def split: sum.splits)

lemma update_in_getNewToken:
  assumes "ev \<in> set (trace (getNewToken w client))" and "updateAction ev"
  shows "\<exists>tok sid. files_copy w (client\<lparr>credentials := Some tok\<rparr>) TEMPLATE_ID = Inr sid
           \<and> ev = SheetsValuesUpdate (client\<lparr>credentials := Some tok\<rparr>) sid
                    ''Actions!A2:F'' ''RAW'' None"
proof (cases "entered_code w")
  case None
  with assms show ?thesis by (auto simp: getNewToken_def Let_def)
next
  case (Some code)
  show ?thesis
  proof (cases "getToken w code")
    case (Inl err)
    with Some assms show ?thesis by (auto simp: getNewToken_def Let_def)
  next
    case (Inr tok)
    with Some assms
    have "ev \<in> set (addResultsToSpeadsheet w (client\<lparr>credentials := Some tok\<rparr>) None)"
      by (auto simp: getNewToken_def Let_def)
    from update_in_addResultsToSpeadsheet [OF this assms(2)] show ?thesis by blast
  qed
qed

lemma update_in_authorize:
  assumes "ev \<in> set (trace (authorize w creds items))" and "updateAction ev"
  shows "\<exists>auth sid values. files_copy w auth TEMPLATE_ID = Inr sid
           \<and> ev = SheetsValuesUpdate auth sid ''Actions!A2:F'' ''RAW'' values"
proof (cases creds)
  case None
  with assms show ?thesis by (simp add: authorize_def)
next
  case (Some inst)
  show ?thesis
  proof (cases "redirect_uris inst")
    case None
    with Some assms show ?thesis by (simp add: authorize_def)
  next
    case uris: (Some uris)
    define client where
      "client = \<lparr>clientId = client_id inst, clientSecret = client_secret inst,
                 redirectUri = (case uris of [] \<Rightarrow> None | u # _ \<Rightarrow> Some u),
                 credentials = None\<rparr>"
    show ?thesis
    proof (cases "token_file w")
      case (Inl err)
      with Some uris assms have "ev \<in> set (trace (getNewToken w client))"
        by (auto simp: authorize_def Let_def client_def TOKEN_PATH_def)
      from update_in_getNewToken [OF this assms(2)] show ?thesis by blast
    next
      case (Inr c)
      show ?thesis
      proof (cases c)
        case NotJSON
        with Inr Some uris assms show ?thesis by (auto simp: authorize_def Let_def)
      next
        case (JSON tok)
        with Inr Some uris assms
        have "ev \<in> set (addResultsToSpeadsheet w (client\<lparr>credentials := Some tok\<rparr>) (Some items))"
          by (auto simp: authorize_def Let_def client_def)
        from update_in_addResultsToSpeadsheet [OF this assms(2)] show ?thesis by blast
      qed
    qed
  qed
qed

subsection \<open>The shapes of a run\<close>

lemma main_cases:
  obtains (early) "list_all auditStageAction (trace (main w))" and "detached (main w) = []"
      and "ReadFile ''credentials.json'' \<notin> set (trace (main w))"
  | (credentials) url port items where "argv2 w = Some url" and "indexOf url ''http'' = 0"
      and "chrome_launch w = Inr port" and "lighthouse_run w url = Inr (Details items)"
      and "chrome_kill w = None"
      and "main w = after (audit_events url port items)
             (case credentials_file w of
                Inl err \<Rightarrow> ended [ConsoleLog [Str ''Error loading client secret file:'',
                                                 ErrorArg err]]
              | Inr NotJSON \<Rightarrow> ended [Uncaught SyntaxError]
              | Inr (JSON creds) \<Rightarrow>
                  authorize w creds
                    (assembleRows url (case items of None \<Rightarrow> [] | Some its \<Rightarrow> its) []))"
proof (cases "argv2 w")
  case None
  then have "main w = ended [Uncaught TypeError]" by (simp add: main_def)
  then show ?thesis by (intro early) simp_all
next
  case (Some url)
  show ?thesis
  proof (cases "indexOf url ''http'' = 0")
    case False
    with Some have "main w = ended [ConsoleLog [Str ''Usage: node 3rd-party-impact.js <url>'']]"
      by (simp add: main_def)
    then show ?thesis by (intro early) simp_all
  next
    case http: True
    show ?thesis
    proof (cases "chrome_launch w")
      case (Inl e)
      with Some http show ?thesis
        by (intro early) (simp_all add: main_def launchChromeAndRunLighthouse_def)
    next
      case (Inr port)
      show ?thesis
      proof (cases "lighthouse_run w url")
        case (Inl e)
        with Some http Inr show ?thesis
          by (intro early) (simp_all add: main_def launchChromeAndRunLighthouse_def)
      next
        case lhr: (Inr lhr)
        show ?thesis
        proof (cases "chrome_kill w")
          case (Some e)
          with \<open>argv2 w = Some url\<close> http Inr lhr show ?thesis
            by (intro early) (simp_all add: main_def launchChromeAndRunLighthouse_def)
        next
          case None
          show ?thesis
          proof (cases lhr)
            case NoDetails
            with Some http Inr lhr None show ?thesis
              by (intro early) (simp_all add: main_def launchChromeAndRunLighthouse_def)
          next
            case (Details items)
            have "main w = after (audit_events url port items)
             (case credentials_file w of
                Inl err \<Rightarrow> ended [ConsoleLog [Str ''Error loading client secret file:'',
                                                 ErrorArg err]]
              | Inr NotJSON \<Rightarrow> ended [Uncaught SyntaxError]
              | Inr (JSON creds) \<Rightarrow>
                  authorize w creds
                    (assembleRows url (case items of None \<Rightarrow> [] | Some its \<Rightarrow> its) []))"
              using Some http Inr lhr None Details
              by (simp add: main_def launchChromeAndRunLighthouse_def audit_events_def
                  after_def Let_def)
            with Some http Inr lhr None Details show ?thesis by (intro credentials) simp_all
          qed
        qed
      qed
    qed
  qed
qed

lemma auditStageAction_kinds:
  "auditStageAction ev \<Longrightarrow>
     \<not> credentialAction ev \<and> \<not> interactiveAction ev \<and> \<not> deliveryAction ev \<and> \<not> updateAction ev"
  by (cases ev) (simp_all add: TOKEN_PATH_def)

lemma audit_events_kinds:
  "ev \<in> set (audit_events url port items) \<Longrightarrow>
     \<not> credentialAction ev \<and> \<not> interactiveAction ev \<and> \<not> deliveryAction ev \<and> \<not> updateAction ev"
  by (auto simp: audit_events_def TOKEN_PATH_def)

lemma update_in_main:
  assumes "ev \<in> set (trace (main w))" and "updateAction ev"
  shows "\<exists>auth sid values. files_copy w auth TEMPLATE_ID = Inr sid
           \<and> ev = SheetsValuesUpdate auth sid ''Actions!A2:F'' ''RAW'' values"
proof (cases rule: main_cases [of w])
  case early
  with assms show ?thesis by (auto simp: list_all_iff dest: auditStageAction_kinds)
next
  case (credentials url port items)
  from assms audit_events_kinds [of ev url port items]
  have rest: "ev \<in> set (trace (case credentials_file w of
                Inl err \<Rightarrow> ended [ConsoleLog [Str ''Error loading client secret file:'',
                                                 ErrorArg err]]
              | Inr NotJSON \<Rightarrow> ended [Uncaught SyntaxError]
              | Inr (JSON creds) \<Rightarrow>
                  authorize w creds
                    (assembleRows url (case items of None \<Rightarrow> [] | Some its \<Rightarrow> its) [])))"
    by (auto simp: credentials(6))
  show ?thesis
  proof (cases "credentials_file w")
    case (Inl err)
    with rest assms(2) show ?thesis by auto
  next
    case (Inr c)
    show ?thesis
    proof (cases c)
      case NotJSON
      with Inr rest assms(2) show ?thesis by auto
    next
      case (JSON creds)
      with Inr rest have "ev \<in> set (trace (authorize w creds
             (assembleRows url (case items of None \<Rightarrow> [] | Some its \<Rightarrow> its) [])))"
        by simp
      from update_in_authorize [OF this assms(2)] show ?thesis .
    qed
  qed
qed

subsection \<open>The delivery\<close>

lemma cached_path_update:
  assumes "token_file w = Inr (JSON tok)" and "redirect_uris inst = Some uris"
    and "ev \<in> set (trace (authorize w (Some inst) items))" and "updateAction ev"
  shows "\<exists>auth sid. ev = SheetsValuesUpdate auth sid ''Actions!A2:F'' ''RAW'' (Some items)"
proof -
  from assms(1-3) obtain auth where "ev = ReadFile TOKEN_PATH
      \<or> ev \<in> set (addResultsToSpeadsheet w auth (Some items))"
    by (auto simp: authorize_def Let_def)
  with assms(4) have "ev \<in> set (addResultsToSpeadsheet w auth (Some items))" by auto
  from update_in_addResultsToSpeadsheet [OF this assms(4)] show ?thesis by blast
qed

text \<open>
  C1: whichever way the credential was obtained, the delivery issues one update request
  to the copy, for the range Actions!A2:F in mode RAW, carrying all the assembled rows.
  The program does so when the token comes from \<open>token.json\<close>. When the token comes from
  the interactive flow, \<open>getNewToken\<close> calls the callback with the client alone, and the
  one update request is issued without any rows.
\<close>

theorem interactive_flow_update_without_rows:
  "filter updateAction (trace (main interactive_world)) =
     [SheetsValuesUpdate (example_client\<lparr>credentials := Some ''fresh''\<rparr>) ''copy1''
        ''Actions!A2:F'' ''RAW'' None]
   \<and> filter updateAction (trace (main cached_world)) =
     [SheetsValuesUpdate (example_client\<lparr>credentials := Some ''cached''\<rparr>) ''copy1''
        ''Actions!A2:F'' ''RAW'' (Some [rowOf ''https://example.com'' example_item])]"
proof -
  have i: "filter updateAction (trace (main interactive_world)) =
     [SheetsValuesUpdate (example_client\<lparr>credentials := Some ''fresh''\<rparr>) ''copy1''
        ''Actions!A2:F'' ''RAW'' None]"
    by (simp add: run_defs world_defs example_url_http example_client_def TEMPLATE_ID_def
        TOKEN_PATH_def)
  have c: "filter updateAction (trace (main cached_world)) =
     [SheetsValuesUpdate (example_client\<lparr>credentials := Some ''cached''\<rparr>) ''copy1''
        ''Actions!A2:F'' ''RAW'' (Some [rowOf ''https://example.com'' example_item])]"
    by (simp add: run_defs world_defs example_url_http example_client_def TEMPLATE_ID_def
        TOKEN_PATH_def)
  from i c show ?thesis by simp
qed

text \<open>
  C2, as stated: when \<open>credentials.json\<close> cannot be read, the run aborts before any
  browser launch, audit or network activity. The program reads the file in the callback of
  the audit: the browser has been launched, the page audited and the browser killed when
  the read fails.
\<close>

theorem credentials_error_counterexample:
  "credentials_file no_credentials_world = Inl ''ENOENT''
   \<and> trace (main no_credentials_world) =
       [ConsoleLog [Str []],
        ConsoleLog [Str ''Program has started. Analysing 3rd party script on: https://example.com''],
        ConsoleLog [Str ''Opening Chrome to make Lighthouse run...''],
        ChromeLaunch [''--headless''],
        Lighthouse ''https://example.com'' 9222 [''third-party-summary''],
        ChromeKill,
        ConsoleLog [ItemsArg (Some [example_item])],
        ReadFile ''credentials.json'',
        ConsoleLog [Str ''Error loading client secret file:'', ErrorArg ''ENOENT'']]"
proof -
  have f: "credentials_file no_credentials_world = Inl ''ENOENT''"
    by (simp add: world_defs)
  have t: "trace (main no_credentials_world) =
       [ConsoleLog [Str []],
        ConsoleLog [Str ''Program has started. Analysing 3rd party script on: https://example.com''],
        ConsoleLog [Str ''Opening Chrome to make Lighthouse run...''],
        ChromeLaunch [''--headless''],
        Lighthouse ''https://example.com'' 9222 [''third-party-summary''],
        ChromeKill,
        ConsoleLog [ItemsArg (Some [example_item])],
        ReadFile ''credentials.json'',
        ConsoleLog [Str ''Error loading client secret file:'', ErrorArg ''ENOENT'']]"
    by (simp add: run_defs world_defs example_url_http)
  from f t show ?thesis by simp
qed

text \<open>
  C2, amended: when \<open>credentials.json\<close> cannot be read, the run performs no action of the
  credential stage or of the delivery (no access to the token store, no authorization
  prompt, no exchange of a code, no request to Drive or Sheets); and when it gets as far as
  reading the file, the browser launch, the audit and the kill of the browser come first,
  and the logged error is its last action.
\<close>

theorem credentials_error_after_audit:
  assumes "credentials_file w = Inl err"
  shows "(\<forall>ev\<in>set (trace (main w)). \<not> credentialAction ev)
         \<and> detached (main w) = []
         \<and> (ReadFile ''credentials.json'' \<in> set (trace (main w)) \<longrightarrow>
              (\<exists>url port items pre.
                 argv2 w = Some url \<and> chrome_launch w = Inr port
                 \<and> trace (main w) =
                      pre @ [ChromeLaunch [''--headless''],
                             Lighthouse url port [''third-party-summary''],
                             ChromeKill,
                             ConsoleLog [ItemsArg items],
                             ReadFile ''credentials.json'',
                             ConsoleLog [Str ''Error loading client secret file:'',
                                         ErrorArg err]]))"
proof (cases rule: main_cases [of w])
  case early
  then show ?thesis by (auto simp: list_all_iff dest: auditStageAction_kinds)
next
  case (credentials url port items)
  with assms have m: "main w = after (audit_events url port items)
      (ended [ConsoleLog [Str ''Error loading client secret file:'', ErrorArg err]])"
    by simp
  have none: "\<forall>ev\<in>set (trace (main w)). \<not> credentialAction ev"
    using audit_events_kinds [of _ url port items] by (auto simp: m)
  have det: "detached (main w) = []" by (simp add: m)
  have "trace (main w) =
          [ConsoleLog [Str []],
           ConsoleLog [Str (''Program has started. Analysing 3rd party script on: '' @ url)],
           ConsoleLog [Str ''Opening Chrome to make Lighthouse run...'']]
          @ [ChromeLaunch [''--headless''],
             Lighthouse url port [''third-party-summary''],
             ChromeKill,
             ConsoleLog [ItemsArg items],
             ReadFile ''credentials.json'',
             ConsoleLog [Str ''Error loading client secret file:'', ErrorArg err]]"
    by (simp add: m audit_events_def)
  with credentials(1,3) none det show ?thesis by blast
qed

theorem credentials_error_after_audit_witness:
  "credentials_file no_credentials_world = Inl ''ENOENT''
   \<and> ReadFile ''credentials.json'' \<in> set (trace (main no_credentials_world))
   \<and> list_all (\<lambda>ev. \<not> credentialAction ev) (trace (main no_credentials_world))
   \<and> last (trace (main no_credentials_world))
       = ConsoleLog [Str ''Error loading client secret file:'', ErrorArg ''ENOENT'']"
proof -
  have f: "credentials_file no_credentials_world = Inl ''ENOENT''"
    by (simp add: world_defs)
  have r: "ReadFile ''credentials.json'' \<in> set (trace (main no_credentials_world))"
    by (simp add: run_defs world_defs example_url_http)
  from credentials_error_after_audit [OF f] f r show ?thesis
    by (auto simp: list_all_iff)
qed

text \<open>
  C3: a missing URL argument, or one that does not start with "http", makes the program
  print the usage message and return without any audit, browser or network action. The
  program does so for every string that does not start with "http", the empty string
  included (lemma \<open>main_not_http\<close>). When the argument is missing, \<open>process.argv[2]\<close> is
  undefined and the call of \<open>indexOf\<close> on it throws: the run ends with an uncaught
  TypeError, and the usage message is not printed.
\<close>

theorem missing_argument_throws:
  "main (w\<lparr>argv2 := None\<rparr>) = \<lparr>trace = [Uncaught TypeError], detached = []\<rparr>"
  by (simp add: main_def ended_def)

lemma main_not_http:
  assumes "argv2 w = Some url" and "\<not> prefix ''http'' url"
  shows "main w = \<lparr>trace = [ConsoleLog [Str ''Usage: node 3rd-party-impact.js <url>'']],
                   detached = []\<rparr>"
  using assms by (simp add: main_def ended_def indexOf_zero_iff)

lemma main_empty_url:
  "main (w\<lparr>argv2 := Some []\<rparr>)
     = \<lparr>trace = [ConsoleLog [Str ''Usage: node 3rd-party-impact.js <url>'']], detached = []\<rparr>"
  using main_not_http [of "w\<lparr>argv2 := Some []\<rparr>" "[]"] by simp

text \<open>
  C8: when the copy of the template fails, the error is reported and the run ends there:
  no update request is made, to the template or to anything else. In every run an update
  request is addressed to the spreadsheet that a successful copy has returned.
\<close>

theorem copy_failure_aborts:
  "(files_copy w auth TEMPLATE_ID = Inl err \<longrightarrow>
      addResultsToSpeadsheet w auth items =
        [ConsoleLog [Str ''Making a copy of the report TEMPLATE file....''],
         DriveFilesCopy auth TEMPLATE_ID,
         ConsoleLog [Str (''The API returned an error: '' @ err)]])
   \<and> ((\<forall>a. \<exists>e. files_copy w a TEMPLATE_ID = Inl e) \<longrightarrow>
        (\<forall>ev\<in>set (trace (main w)). \<not> updateAction ev))
   \<and> (\<forall>ev\<in>set (trace (main w)). \<forall>a sid r v vs.
         ev = SheetsValuesUpdate a sid r v vs \<longrightarrow> files_copy w a TEMPLATE_ID = Inr sid)"
proof -
  have one: "files_copy w auth TEMPLATE_ID = Inl err \<longrightarrow>
      addResultsToSpeadsheet w auth items =
        [ConsoleLog [Str ''Making a copy of the report TEMPLATE file....''],
         DriveFilesCopy auth TEMPLATE_ID,
         ConsoleLog [Str (''The API returned an error: '' @ err)]]"
    by (simp add: addResultsToSpeadsheet_def)
  have two: "\<not> updateAction ev"
    if "\<forall>a. \<exists>e. files_copy w a TEMPLATE_ID = Inl e" and "ev \<in> set (trace (main w))" for ev
  proof
    assume "updateAction ev"
    from update_in_main [OF that(2) this] obtain a sid where
      "files_copy w a TEMPLATE_ID = Inr sid" by blast
    with that(1) show False by (metis Inl_Inr_False)
  qed
  have three: "files_copy w a TEMPLATE_ID = Inr sid"
    if "ev \<in> set (trace (main w))" and "ev = SheetsValuesUpdate a sid r v vs" for ev a sid r v vs
  proof -
    from that(2) have "updateAction ev" by simp
    from update_in_main [OF that(1) this] that(2) show ?thesis by auto
  qed
  from one two three show ?thesis by blast
qed

theorem copy_failure_aborts_witness:
  "files_copy copy_fails_world (example_client\<lparr>credentials := Some ''cached''\<rparr>) TEMPLATE_ID
     = Inl ''Error: File not found''
   \<and> DriveFilesCopy (example_client\<lparr>credentials := Some ''cached''\<rparr>) TEMPLATE_ID
       \<in> set (trace (main copy_fails_world))
   \<and> last (trace (main copy_fails_world))
       = ConsoleLog [Str ''The API returned an error: Error: File not found'']
   \<and> list_all (\<lambda>ev. \<not> updateAction ev) (trace (main copy_fails_world))
   \<and> SheetsValuesUpdate (example_client\<lparr>credentials := Some ''cached''\<rparr>) ''copy1''
         ''Actions!A2:F'' ''RAW'' (Some [rowOf ''https://example.com'' example_item])
       \<in> set (trace (main cached_world))
   \<and> files_copy cached_world (example_client\<lparr>credentials := Some ''cached''\<rparr>) TEMPLATE_ID
       = Inr ''copy1''"
proof -
  have f: "\<forall>a. \<exists>e. files_copy copy_fails_world a TEMPLATE_ID = Inl e"
    by (simp add: world_defs)
  have g: "files_copy copy_fails_world (example_client\<lparr>credentials := Some ''cached''\<rparr>)
             TEMPLATE_ID = Inl ''Error: File not found''"
    by (simp add: world_defs)
  have t: "trace (main copy_fails_world) =
       audit_events ''https://example.com'' 9222 (Some [example_item]) @
       [ReadFile TOKEN_PATH] @
       addResultsToSpeadsheet copy_fails_world (example_client\<lparr>credentials := Some ''cached''\<rparr>)
         (Some [rowOf ''https://example.com'' example_item])"
    by (simp add: main_def authorize_def launchChromeAndRunLighthouse_def Let_def world_defs
        example_url_http example_client_def audit_events_def)
  note c = copy_failure_aborts [of copy_fails_world
      "example_client\<lparr>credentials := Some ''cached''\<rparr>" "''Error: File not found''"
      "Some [rowOf ''https://example.com'' example_item]"]
  from c g have a: "addResultsToSpeadsheet copy_fails_world
        (example_client\<lparr>credentials := Some ''cached''\<rparr>)
        (Some [rowOf ''https://example.com'' example_item]) =
        [ConsoleLog [Str ''Making a copy of the report TEMPLATE file....''],
         DriveFilesCopy (example_client\<lparr>credentials := Some ''cached''\<rparr>) TEMPLATE_ID,
         ConsoleLog [Str (''The API returned an error: '' @ ''Error: File not found'')]]"
    by blast
  from c f have n: "\<forall>ev\<in>set (trace (main copy_fails_world)). \<not> updateAction ev" by blast
  have u: "SheetsValuesUpdate (example_client\<lparr>credentials := Some ''cached''\<rparr>) ''copy1''
         ''Actions!A2:F'' ''RAW'' (Some [rowOf ''https://example.com'' example_item])
       \<in> set (trace (main cached_world))"
    by (simp add: run_defs world_defs example_url_http example_client_def)
  note d = copy_failure_aborts [of cached_world, THEN conjunct2, THEN conjunct2, rule_format,
      OF u refl]
  from g n u d show ?thesis by (simp add: t a list_all_iff)
qed

text \<open>
  C9: when the token that has just been obtained cannot be written to \<open>token.json\<close>, the
  error is printed and nothing else changes: the client carries the new token, and the
  delivery is called with it, exactly as when the write succeeds.
\<close>

theorem token_write_failure_not_fatal:
  assumes "token_write w = Some werr" and "entered_code w = Some code"
    and "getToken w code = Inr tok"
  shows "detached (getNewToken w client) = [ConsoleError [ErrorArg werr]]
         \<and> trace (getNewToken w client) =
             [ConsoleLog [Str ''Authorize this app by visiting this url:'',
                          Str (generateAuthUrl w SCOPES)],
              Question ''Enter the code from that page here: '',
              GetToken client code,
              WriteFile TOKEN_PATH tok]
             @ addResultsToSpeadsheet w (client\<lparr>credentials := Some tok\<rparr>) None
         \<and> trace (getNewToken w client) = trace (getNewToken (w\<lparr>token_write := None\<rparr>) client)
         \<and> DriveFilesCopy (client\<lparr>credentials := Some tok\<rparr>) TEMPLATE_ID
             \<in> set (trace (getNewToken w client))"
proof -
  have same: "addResultsToSpeadsheet (w\<lparr>token_write := None\<rparr>) a None
               = addResultsToSpeadsheet w a None" for a
    by (simp add: addResultsToSpeadsheet_def writeSheet_def Let_def split: sum.splits)
  from assms show ?thesis
    by (simp add: getNewToken_def Let_def same) (simp add: addResultsToSpeadsheet_def)
qed

theorem token_write_failure_not_fatal_witness:
  "token_write write_fails_world = Some ''EACCES''
   \<and> entered_code write_fails_world = Some ''4/code''
   \<and> getToken write_fails_world ''4/code'' = Inr ''fresh''
   \<and> detached (getNewToken write_fails_world example_client) = [ConsoleError [ErrorArg ''EACCES'']]
   \<and> DriveFilesCopy (example_client\<lparr>credentials := Some ''fresh''\<rparr>) TEMPLATE_ID
       \<in> set (trace (getNewToken write_fails_world example_client))"
proof -
  have h: "token_write write_fails_world = Some ''EACCES''"
    "entered_code write_fails_world = Some ''4/code''"
    "getToken write_fails_world ''4/code'' = Inr ''fresh''"
    by (simp_all add: world_defs)
  from token_write_failure_not_fatal [OF h, of example_client] h show ?thesis by blast
qed

text \<open>
  C10: when \<open>token.json\<close> can be read and is not valid JSON, \<open>JSON.parse\<close> throws in the
  callback of the read and nothing catches it: the run ends there, with no interactive
  authorization and no delivery. The interactive flow is entered only when the read of
  \<open>token.json\<close> fails.
\<close>

theorem malformed_token_throws:
  "(token_file w = Inr NotJSON \<longrightarrow>
      (redirect_uris inst = Some uris \<longrightarrow>
         authorize w (Some inst) items
           = \<lparr>trace = [ReadFile TOKEN_PATH, Uncaught SyntaxError], detached = []\<rparr>)
      \<and> (\<forall>ev\<in>set (trace (main w)). \<not> interactiveAction ev \<and> \<not> deliveryAction ev)
      \<and> (ReadFile TOKEN_PATH \<in> set (trace (main w)) \<longrightarrow>
            last (trace (main w)) = Uncaught SyntaxError))
   \<and> ((\<exists>ev\<in>set (trace (authorize w creds items)). interactiveAction ev) \<longrightarrow>
        (\<exists>e. token_file w = Inl e))"
proof -
  have auth: "authorize w creds rows = ended [Uncaught TypeError]
              \<or> authorize w creds rows = ended [ReadFile TOKEN_PATH, Uncaught SyntaxError]"
    if "token_file w = Inr NotJSON" for creds rows
    using that by (simp add: authorize_def Let_def after_def ended_def split: option.splits)
  have one: "authorize w (Some inst) items
           = \<lparr>trace = [ReadFile TOKEN_PATH, Uncaught SyntaxError], detached = []\<rparr>"
    if "token_file w = Inr NotJSON" and "redirect_uris inst = Some uris"
    using that by (simp add: authorize_def Let_def after_def ended_def)
  have run: "(\<forall>ev\<in>set (trace (main w)). \<not> interactiveAction ev \<and> \<not> deliveryAction ev)
      \<and> (ReadFile TOKEN_PATH \<in> set (trace (main w)) \<longrightarrow>
            last (trace (main w)) = Uncaught SyntaxError)"
    if bad: "token_file w = Inr NotJSON"
  proof (cases rule: main_cases [of w])
    case early
    then have "\<forall>ev\<in>set (trace (main w)). auditStageAction ev" by (simp add: list_all_iff)
    moreover have "\<not> auditStageAction (ReadFile TOKEN_PATH)" by simp
    ultimately show ?thesis by (auto dest: auditStageAction_kinds)
  next
    case (credentials url port items)
    have pre: "\<forall>ev\<in>set (audit_events url port items).
                 \<not> interactiveAction ev \<and> \<not> deliveryAction ev \<and> ev \<noteq> ReadFile TOKEN_PATH"
      by (simp add: audit_events_def TOKEN_PATH_def)
    show ?thesis
    proof (cases "credentials_file w")
      case (Inl err)
      with credentials(6) pre show ?thesis by auto
    next
      case (Inr c)
      show ?thesis
      proof (cases c)
        case NotJSON
        with Inr credentials(6) pre show ?thesis by auto
      next
        case (JSON creds)
        from auth [OF bad, of creds
            "assembleRows url (case items of None \<Rightarrow> [] | Some its \<Rightarrow> its) []"]
        show ?thesis
        proof
          assume "authorize w creds
              (assembleRows url (case items of None \<Rightarrow> [] | Some its \<Rightarrow> its) [])
              = ended [Uncaught TypeError]"
          with JSON Inr credentials(6) pre show ?thesis by auto
        next
          assume "authorize w creds
              (assembleRows url (case items of None \<Rightarrow> [] | Some its \<Rightarrow> its) [])
              = ended [ReadFile TOKEN_PATH, Uncaught SyntaxError]"
          with JSON Inr credentials(6) pre show ?thesis by auto
        qed
      qed
    qed
  qed
  have only: "\<exists>e. token_file w = Inl e"
    if "\<exists>ev\<in>set (trace (authorize w creds items)). interactiveAction ev"
  proof (cases "token_file w")
    case (Inl e)
    then show ?thesis by blast
  next
    case (Inr c)
    have "\<forall>ev\<in>set (addResultsToSpeadsheet w a rs). \<not> interactiveAction ev" for a rs
      by (auto simp: addResultsToSpeadsheet_def writeSheet_def Let_def split: sum.splits)
    with Inr have "\<forall>ev\<in>set (trace (authorize w creds items)). \<not> interactiveAction ev"
      by (cases c) (auto simp: authorize_def Let_def split: option.splits)
    with that show ?thesis by blast
  qed
  from one run only show ?thesis by blast
qed

theorem malformed_token_throws_witness:
  "token_file bad_token_world = Inr NotJSON
   \<and> ReadFile TOKEN_PATH \<in> set (trace (main bad_token_world))
   \<and> last (trace (main bad_token_world)) = Uncaught SyntaxError
   \<and> list_all (\<lambda>ev. \<not> interactiveAction ev \<and> \<not> deliveryAction ev) (trace (main bad_token_world))
   \<and> authorize bad_token_world (Some example_installed) []
       = \<lparr>trace = [ReadFile TOKEN_PATH, Uncaught SyntaxError], detached = []\<rparr>
   \<and> list_ex interactiveAction (trace (authorize interactive_world (Some example_installed) []))
   \<and> token_file interactive_world = Inl ''ENOENT''"
proof -
  have b: "token_file bad_token_world = Inr NotJSON" by (simp add: world_defs)
  have r: "ReadFile TOKEN_PATH \<in> set (trace (main bad_token_world))"
    by (simp add: run_defs world_defs example_url_http)
  have u: "redirect_uris example_installed = Some [''http://localhost'']"
    by (simp add: example_installed_def)
  have q: "list_ex interactiveAction
             (trace (authorize interactive_world (Some example_installed) []))"
    by (simp add: run_defs world_defs)
  then have q': "\<exists>ev\<in>set (trace (authorize interactive_world (Some example_installed) [])).
                   interactiveAction ev"
    by (simp add: list_ex_iff)
  have i: "token_file interactive_world = Inl e \<Longrightarrow> e = ''ENOENT''" for e
    by (simp add: world_defs)
  note bad = malformed_token_throws [of bad_token_world example_installed
      "[''http://localhost'']" "[]"]
  note only = malformed_token_throws [of interactive_world _ _ "[]" "Some example_installed",
      THEN conjunct2, rule_format, OF q']
  from only i have "token_file interactive_world = Inl ''ENOENT''" by blast
  with bad b r u q show ?thesis by (simp add: list_all_iff)
qed

end
